theory Spec2Isabelle
  imports Complex_Main
begin

section \<open>JavaScript values, numbers and failures\<close>

text \<open>
  The scanner (the module \<open>scanner.js\<close>, second part of \<open>src/index.js\<close>) is
  embedded function by function. A JavaScript value that the scanner stores in a record
  field is a \<open>jsval\<close>; a field the object literal does not set reads as \<open>Undefined\<close>.
  \<open>truthy\<close> is the test a conditional \<open>c ? a : b\<close> applies to such a value.
\<close>

datatype jsval = Undefined | Str string | Num rat | Boolean bool

fun truthy :: "jsval \<Rightarrow> bool" where
  "truthy Undefined = False"
| "truthy (Str s) = (s \<noteq> [])"
| "truthy (Num n) = (n \<noteq> 0)"
| "truthy (Boolean b) = b"

text \<open>
  Numbers. Every weight is a multiple of \<open>1/8\<close>, so the sums the scanner forms are exact
  in double precision and are modelled as rationals. A division can leave the finite
  numbers: \<open>0 / 0\<close> is \<open>NaN\<close> and \<open>x / 0\<close> is an infinity; neither raises. Quotients of
  finite numbers are modelled exactly.
\<close>

datatype jsnum = Finite rat | NaN | PosInfinity | NegInfinity

definition js_divide :: "rat \<Rightarrow> rat \<Rightarrow> jsnum" where
  "js_divide a b =
     (if b = 0 then (if a = 0 then NaN else if 0 < a then PosInfinity else NegInfinity)
      else Finite (a / b))"

fun js_times :: "jsnum \<Rightarrow> rat \<Rightarrow> jsnum" where
  "js_times (Finite a) c = Finite (a * c)"
| "js_times NaN c = NaN"
| "js_times PosInfinity c =
     (if c = 0 then NaN else if 0 < c then PosInfinity else NegInfinity)"
| "js_times NegInfinity c =
     (if c = 0 then NaN else if 0 < c then NegInfinity else PosInfinity)"

text \<open>\<open>Math.round\<close> rounds to the nearest integer, a half towards plus infinity.\<close>

definition Math_round :: "rat \<Rightarrow> rat" where
  "Math_round x = of_int \<lfloor>x + 1 / 2\<rfloor>"

text \<open>The expression \<open>Math.round(x * 100) / 100\<close> of the summary.\<close>

definition round2 :: "rat \<Rightarrow> rat" where
  "round2 x = Math_round (x * 100) / 100"

fun js_round2 :: "jsnum \<Rightarrow> jsnum" where
  "js_round2 (Finite x) = Finite (round2 x)"
| "js_round2 NaN = NaN"
| "js_round2 PosInfinity = PosInfinity"
| "js_round2 NegInfinity = NegInfinity"

text \<open>
  A thrown exception or a rejected promise is the left injection of a sum.
  \<open>TypeError\<close> is what reading a property of \<open>undefined\<close> throws; \<open>Failure\<close> is an
  error reported by the file system, the parser, the glob library or the child process.
\<close>

datatype error = TypeError | Failure string

definition bindE :: "error + 'a \<Rightarrow> ('a \<Rightarrow> error + 'b) \<Rightarrow> error + 'b" where
  "bindE m f = (case m of Inl e \<Rightarrow> Inl e | Inr v \<Rightarrow> f v)"

definition try_catch :: "error + 'a \<Rightarrow> (error \<Rightarrow> error + 'a) \<Rightarrow> error + 'a" where
  "try_catch body handler = (case body of Inl e \<Rightarrow> handler e | Inr v \<Rightarrow> Inr v)"

section \<open>Strings\<close>

definition startsWith :: "string \<Rightarrow> string \<Rightarrow> bool" where
  "startsWith s p = (take (length p) s = p)"

definition endsWith :: "string \<Rightarrow> string \<Rightarrow> bool" where
  "endsWith s p = (length p \<le> length s \<and> drop (length s - length p) s = p)"

definition isWhiteSpace :: "char \<Rightarrow> bool" where
  "isWhiteSpace c =
     (c = CHR 0x20 \<or> c = CHR 0x09 \<or> c = CHR 0x0A \<or> c = CHR 0x0B \<or> c = CHR 0x0C \<or> c = CHR 0x0D)"

definition trim :: "string \<Rightarrow> string" where
  "trim s = rev (dropWhile isWhiteSpace (rev (dropWhile isWhiteSpace s)))"

text \<open>\<open>s.split(sep)\<close> for a one-character separator; the empty string splits into \<open>['''']\<close>.\<close>

fun split :: "char \<Rightarrow> string \<Rightarrow> string list" where
  "split sep [] = [[]]"
| "split sep (c # cs) =
     (if c = sep then [] # split sep cs
      else (case split sep cs of [] \<Rightarrow> [[c]] | w # ws \<Rightarrow> (c # w) # ws))"

section \<open>Syntax trees\<close>

text \<open>
  The expression nodes of the parser's tree, with the fields the visitor reads. A node
  kind the visitor never distinguishes is \<open>OtherExpression\<close>: every property the visitor
  reads from it is \<open>undefined\<close>.
\<close>

datatype expr =
    Identifier string
  | StringLiteral string
  | NumericLiteral rat
  | BooleanLiteral bool
  | MemberExpression expr expr
  | CallExpression expr "expr list"
  | ObjectExpression "member list"
  | OtherExpression
and member =
    ObjectProperty expr expr
  | ObjectMethod expr
  | SpreadElement expr

text \<open>Property reads on a node; \<open>None\<close> is \<open>undefined\<close>.\<close>

fun node_name :: "expr \<Rightarrow> string option" where
  "node_name (Identifier n) = Some n"
| "node_name _ = None"

fun node_callee :: "expr \<Rightarrow> expr option" where
  "node_callee (CallExpression c args) = Some c"
| "node_callee _ = None"

fun node_arguments :: "expr \<Rightarrow> expr list option" where
  "node_arguments (CallExpression c args) = Some args"
| "node_arguments _ = None"

fun node_property :: "expr \<Rightarrow> expr option" where
  "node_property (MemberExpression obj p) = Some p"
| "node_property _ = None"

fun node_properties :: "expr \<Rightarrow> member list option" where
  "node_properties (ObjectExpression ps) = Some ps"
| "node_properties _ = None"

fun node_value :: "expr \<Rightarrow> jsval" where
  "node_value (StringLiteral s) = Str s"
| "node_value (NumericLiteral n) = Num n"
| "node_value (BooleanLiteral b) = Boolean b"
| "node_value _ = Undefined"

fun member_key :: "member \<Rightarrow> expr option" where
  "member_key (ObjectProperty k v) = Some k"
| "member_key (ObjectMethod k) = Some k"
| "member_key (SpreadElement a) = None"

fun member_value :: "member \<Rightarrow> expr option" where
  "member_value (ObjectProperty k v) = Some v"
| "member_value _ = None"

datatype specifier =
    ImportSpecifier string
  | ImportDefaultSpecifier string
  | ImportNamespaceSpecifier string

text \<open>
  The nodes the visitor has a handler for, each with the fields its handler reads: an
  import declaration (\<open>source.value\<close>, \<open>specifiers\<close> with their local names), a class
  declaration (\<open>id.name\<close> when the class is named, the \<open>expression\<close> of each decorator
  when the class has a decorator list), a call expression (\<open>callee\<close>, \<open>arguments\<close>).
  \<open>traverse\<close> walks the tree depth first in source order; a file's tree is represented
  by the sequence of nodes in the order \<open>traverse\<close> visits them.
\<close>

datatype node =
    ImportDeclarationNode string "specifier list"
  | ClassDeclarationNode "string option" "expr list option"
  | CallExpressionNode expr "expr list"
  | OtherNode

section \<open>Records, configuration and the host\<close>

record usageShape =
  inline :: nat
  external :: nat

record component =
  name :: string
  selector :: jsval
  isDesignSystem :: bool
  source :: jsval
  filePath :: string
  viaComposition :: jsval
  usage :: "usageShape option"
  isDynamicImport :: jsval

record scanConfig =
  designSystemPackages :: "string list"
  ignore :: "string list"

record tsConfig =
  options :: "(string \<times> string) list"

text \<open>
  What the scanner calls outside itself: \<open>fs.access\<close>, \<open>fs.readFile\<close>, \<open>exec\<close> (command
  and working directory, giving the standard output), \<open>glob\<close> (pattern, working
  directory, ignore patterns), the parser, the TypeScript configuration reader and
  module resolver, and the \<open>path\<close> functions.
\<close>

record host =
  access :: "string \<Rightarrow> error + unit"
  readFile :: "string \<Rightarrow> error + string"
  exec :: "string \<Rightarrow> string \<Rightarrow> error + string"
  glob :: "string \<Rightarrow> string \<Rightarrow> string list \<Rightarrow> error + string list"
  parse :: "string \<Rightarrow> error + node list"
  readConfigFile :: "string \<Rightarrow> error + tsConfig"
  resolveModuleName :: "string \<Rightarrow> string \<Rightarrow> (string \<times> string) list \<Rightarrow> string option"
  path_join :: "string \<Rightarrow> string \<Rightarrow> string"
  path_dirname :: "string \<Rightarrow> string"
  path_resolve :: "string \<Rightarrow> string \<Rightarrow> string"

record weights =
  designSystem :: rat
  custom :: rat
  htmlElement :: rat
  dynamicImport :: rat

definition WEIGHTS :: weights where
  "WEIGHTS = \<lparr>designSystem = 1, custom = 3 / 4, htmlElement = 1 / 4, dynamicImport = 1 / 2\<rparr>"

record reportSummary =
  designSystemComponents :: nat
  customComponents :: nat
  totalComponents :: nat
  adoptionPercentage :: jsnum
  weightedScore :: rat
  maxScore :: rat

record scanReport =
  summary :: reportSummary
  components :: "component list"

section \<open>Import resolution\<close>

definition resolveImport :: "host \<Rightarrow> string \<Rightarrow> string \<Rightarrow> tsConfig \<Rightarrow> string" where
  "resolveImport h importPath file tsc =
     (if startsWith importPath ''.''
      then path_resolve h (path_dirname h file) importPath
      else (case resolveModuleName h importPath file (options tsc) of
              None \<Rightarrow> importPath
            | Some resolvedFileName \<Rightarrow>
                if resolvedFileName \<noteq> [] then resolvedFileName else importPath))"

section \<open>The visitor of analyzeFile\<close>

text \<open>
  The visitor's closure state is the pair of \<open>components\<close>, the records pushed so far,
  and \<open>usesDesignSystem\<close>. A handler returns the new pair, or the exception it throws.
\<close>

type_synonym visitorState = "component list \<times> bool"

definition isDesignSystemSource :: "scanConfig \<Rightarrow> string \<Rightarrow> bool" where
  "isDesignSystemSource config resolvedSource =
     list_ex (\<lambda>pkg. startsWith resolvedSource pkg) (designSystemPackages config)"

fun specifierComponents :: "string \<Rightarrow> string \<Rightarrow> specifier \<Rightarrow> component list" where
  "specifierComponents resolvedSource file (ImportNamespaceSpecifier local) = []"
| "specifierComponents resolvedSource file (ImportSpecifier local) =
     [\<lparr>name = local, selector = Undefined, isDesignSystem = True,
       source = Str resolvedSource, filePath = file, viaComposition = Undefined,
       usage = Some \<lparr>inline = 0, external = 0\<rparr>, isDynamicImport = Undefined\<rparr>]"
| "specifierComponents resolvedSource file (ImportDefaultSpecifier local) =
     [\<lparr>name = local, selector = Undefined, isDesignSystem = True,
       source = Str resolvedSource, filePath = file, viaComposition = Undefined,
       usage = Some \<lparr>inline = 0, external = 0\<rparr>, isDynamicImport = Undefined\<rparr>]"

definition visitImportDeclaration ::
  "host \<Rightarrow> tsConfig \<Rightarrow> scanConfig \<Rightarrow> string \<Rightarrow> string \<Rightarrow> specifier list \<Rightarrow> visitorState
     \<Rightarrow> error + visitorState" where
  "visitImportDeclaration h tsc config file src specifiers st =
     (let resolvedSource = resolveImport h src file tsc in
      if isDesignSystemSource config resolvedSource
      then Inr (fst st @ concat (map (specifierComponents resolvedSource file) specifiers), True)
      else Inr st)"

text \<open>
  The decorator test of the class handler:
  \<open>d.expression.callee?.name === 'Component' || d.expression.callee?.property?.name === 'Component'\<close>.
\<close>

definition isComponentDecorator :: "expr \<Rightarrow> bool" where
  "isComponentDecorator d =
     (case node_callee d of
        None \<Rightarrow> False
      | Some callee \<Rightarrow>
          node_name callee = Some ''Component'' \<or>
          (case node_property callee of
             None \<Rightarrow> False
           | Some p \<Rightarrow> node_name p = Some ''Component''))"

text \<open>
  \<open>props.find(p => P(p.key.name))\<close>: the test reads \<open>p.key.name\<close>, which throws on a
  member without a key (a spread element) when the search reaches it.
\<close>

fun find_by_key :: "(string option \<Rightarrow> bool) \<Rightarrow> member list \<Rightarrow> error + member option" where
  "find_by_key P [] = Inr None"
| "find_by_key P (p # ps) =
     (case member_key p of
        None \<Rightarrow> Inl TypeError
      | Some k \<Rightarrow> if P (node_name k) then Inr (Some p) else find_by_key P ps)"

text \<open>\<open>found?.value.value\<close>: \<open>undefined\<close> when nothing was found, a throw when the member
  found has no \<open>value\<close> (an object method).\<close>

definition selector_of :: "member option \<Rightarrow> error + jsval" where
  "selector_of found =
     (case found of
        None \<Rightarrow> Inr Undefined
      | Some p \<Rightarrow> (case member_value p of None \<Rightarrow> Inl TypeError | Some v \<Rightarrow> Inr (node_value v)))"

text \<open>\<open>templateProp?.key.name === 'template'\<close>.\<close>

definition isInline :: "member option \<Rightarrow> bool" where
  "isInline templateProp =
     (case templateProp of
        None \<Rightarrow> False
      | Some p \<Rightarrow> (case member_key p of None \<Rightarrow> False | Some k \<Rightarrow> node_name k = Some ''template''))"

definition customComponent :: "string \<Rightarrow> jsval \<Rightarrow> string \<Rightarrow> bool \<Rightarrow> bool \<Rightarrow> component" where
  "customComponent className sel file usesDesignSystem isInlineTemplate =
     \<lparr>name = className, selector = sel, isDesignSystem = False, source = Str ''custom'',
      filePath = file, viaComposition = Boolean usesDesignSystem,
      usage = Some \<lparr>inline = (if isInlineTemplate then 1 else 0),
                     external = (if isInlineTemplate then 0 else 1)\<rparr>,
      isDynamicImport = Undefined\<rparr>"

text \<open>
  The class handler. Each read that throws in the source is a branch to \<open>Inl TypeError\<close>:
  \<open>arguments[0].properties\<close> with no argument, \<open>props.find\<close> when the first argument
  has no \<open>properties\<close>, the two searches, \<open>value.value\<close>, and \<open>path.node.id.name\<close> for a
  class without a name.
\<close>

definition visitClassDeclaration ::
  "string \<Rightarrow> string option \<Rightarrow> expr list option \<Rightarrow> visitorState \<Rightarrow> error + visitorState" where
  "visitClassDeclaration file ident decorators st =
     (case (case decorators of None \<Rightarrow> None | Some ds \<Rightarrow> find isComponentDecorator ds) of
        None \<Rightarrow> Inr st
      | Some decorator \<Rightarrow>
          (case node_arguments decorator of
             None \<Rightarrow> Inl TypeError
           | Some [] \<Rightarrow> Inl TypeError
           | Some (arg0 # rest) \<Rightarrow>
               (case node_properties arg0 of
                  None \<Rightarrow> Inl TypeError
                | Some props \<Rightarrow>
                    bindE (find_by_key (\<lambda>k. k = Some ''selector'') props) (\<lambda>selProp.
                    bindE (selector_of selProp) (\<lambda>sel.
                    bindE (find_by_key (\<lambda>k. k = Some ''template'' \<or> k = Some ''templateUrl'') props)
                      (\<lambda>templateProp.
                    (case ident of
                       None \<Rightarrow> Inl TypeError
                     | Some className \<Rightarrow>
                         Inr (fst st @ [customComponent className sel file (snd st)
                                          (isInline templateProp)],
                              snd st))))))))"

definition lazyComponent :: "jsval \<Rightarrow> string \<Rightarrow> component" where
  "lazyComponent src file =
     \<lparr>name = ''lazy-loaded'', selector = Undefined, isDesignSystem = False, source = src,
      filePath = file, viaComposition = Undefined, usage = None,
      isDynamicImport = Boolean True\<rparr>"

definition visitCallExpression ::
  "string \<Rightarrow> expr \<Rightarrow> expr list \<Rightarrow> visitorState \<Rightarrow> error + visitorState" where
  "visitCallExpression file callee args st =
     (if node_name callee = Some ''loadChildren''
      then (case args of
              [] \<Rightarrow> Inl TypeError
            | arg0 # rest \<Rightarrow> Inr (fst st @ [lazyComponent (node_value arg0) file], snd st))
      else Inr st)"

fun visit ::
  "host \<Rightarrow> tsConfig \<Rightarrow> scanConfig \<Rightarrow> string \<Rightarrow> node \<Rightarrow> visitorState \<Rightarrow> error + visitorState" where
  "visit h tsc config file (ImportDeclarationNode src specifiers) st =
     visitImportDeclaration h tsc config file src specifiers st"
| "visit h tsc config file (ClassDeclarationNode ident decorators) st =
     visitClassDeclaration file ident decorators st"
| "visit h tsc config file (CallExpressionNode callee args) st =
     visitCallExpression file callee args st"
| "visit h tsc config file OtherNode st = Inr st"

text \<open>\<open>traverse\<close> calls the handlers in visiting order; the first throw ends the walk.\<close>

fun traverse ::
  "host \<Rightarrow> tsConfig \<Rightarrow> scanConfig \<Rightarrow> string \<Rightarrow> node list \<Rightarrow> visitorState \<Rightarrow> error + visitorState" where
  "traverse h tsc config file [] st = Inr st"
| "traverse h tsc config file (n # ns) st =
     (case visit h tsc config file n st of
        Inl e \<Rightarrow> Inl e
      | Inr st' \<Rightarrow> traverse h tsc config file ns st')"

text \<open>
  \<open>analyzeFile\<close>: the whole body stands in one \<open>try\<close>, and the \<open>catch\<close> returns the
  empty list. The value is the settled promise of the async function. The warning the
  \<open>catch\<close> writes is left out: batches run their files concurrently, so the program
  does not fix the order of these lines.
\<close>

definition analyzeFile :: "host \<Rightarrow> tsConfig \<Rightarrow> scanConfig \<Rightarrow> string \<Rightarrow> error + component list" where
  "analyzeFile h tsc config file =
     try_catch
       (bindE (readFile h file) (\<lambda>content.
        bindE (parse h content) (\<lambda>ast.
        bindE (traverse h tsc config file ast ([], False)) (\<lambda>st.
        Inr (fst st)))))
       (\<lambda>e. Inr [])"

section \<open>Changed files\<close>

text \<open>
  \<open>getChangedFiles\<close> returns the warnings it writes and its settled promise. Inside the
  \<open>try\<close> only \<open>fs.access\<close> is awaited. The promise around \<open>exec\<close> is returned without
  \<open>await\<close>, so the async function settles as that promise does, after the \<open>try\<close> block
  has been left: a rejection of it is the rejection of \<open>getChangedFiles\<close>, and the
  \<open>catch\<close> does not run.
\<close>

definition changedFilesWarning :: string where
  "changedFilesWarning = ''Not a git repository or git not installed. Falling back to full scan.''"

definition getChangedFiles :: "host \<Rightarrow> string \<Rightarrow> string list \<times> (error + string list)" where
  "getChangedFiles h repoPath =
     (case access h (path_join h repoPath ''.git'') of
        Inl e \<Rightarrow> ([changedFilesWarning], Inr [])
      | Inr u \<Rightarrow>
          (case exec h ''git diff --name-only HEAD'' repoPath of
             Inl err \<Rightarrow> ([], Inl err)
           | Inr stdout \<Rightarrow>
               ([], Inr (filter (\<lambda>file. endsWith file ''.ts'') (split (CHR 0x0A) (trim stdout))))))"

definition getTypeScriptFiles :: "host \<Rightarrow> string \<Rightarrow> string list \<Rightarrow> error + string list" where
  "getTypeScriptFiles h dir ign = glob h ''**/*.ts'' dir ign"

definition loadTsConfig :: "host \<Rightarrow> string \<Rightarrow> tsConfig" where
  "loadTsConfig h tsConfigPath =
     (case readConfigFile h tsConfigPath of
        Inl e \<Rightarrow> \<lparr>options = []\<rparr>
      | Inr c \<Rightarrow> c)"

section \<open>Batches\<close>

text \<open>\<open>items.slice(start, end)\<close> for \<open>0 \<le> start \<le> end\<close>; an end beyond the list is cut.\<close>

definition slice :: "'a list \<Rightarrow> nat \<Rightarrow> nat \<Rightarrow> 'a list" where
  "slice xs start stop = take (stop - start) (drop start xs)"

text \<open>
  The limit is a natural number (the scanner always runs with the default 10).
  The first loop of \<open>parallelProcess\<close>,
  \<open>for (let i = 0; i < items.length; i += limit) batches.push(items.slice(i, i + limit))\<close>,
  with \<open>i\<close> and \<open>batches\<close> as arguments. With \<open>limit = 0\<close> the index never moves: the
  loop does not return, which is the value \<open>None\<close>.
\<close>

partial_function (option) makeBatches ::
  "'a list \<Rightarrow> nat \<Rightarrow> nat \<Rightarrow> 'a list list \<Rightarrow> 'a list list option" where
  "makeBatches items limit i batches =
     (if i < length items
      then makeBatches items limit (i + limit) (batches @ [slice items i (i + limit)])
      else Some batches)"

declare makeBatches.simps [code]

text \<open>
  \<open>Promise.all\<close> over the promises of one batch: the list of values when all resolve,
  a rejection when one rejects (here the first in list order).
\<close>

fun Promise_all :: "(error + 'b) list \<Rightarrow> error + 'b list" where
  "Promise_all [] = Inr []"
| "Promise_all (Inl e # ps) = Inl e"
| "Promise_all (Inr v # ps) = (case Promise_all ps of Inl e \<Rightarrow> Inl e | Inr vs \<Rightarrow> Inr (v # vs))"

text \<open>The second loop: \<open>for (const batch of batches) results.push(...await Promise.all(batch.map(fn)))\<close>.\<close>

fun runBatches :: "('a \<Rightarrow> error + 'b) \<Rightarrow> 'a list list \<Rightarrow> 'b list \<Rightarrow> error + 'b list" where
  "runBatches fn [] results = Inr results"
| "runBatches fn (batch # rest) results =
     (case Promise_all (map fn batch) of
        Inl e \<Rightarrow> Inl e
      | Inr rs \<Rightarrow> runBatches fn rest (results @ rs))"

definition parallelProcess ::
  "'a list \<Rightarrow> ('a \<Rightarrow> error + 'b) \<Rightarrow> nat \<Rightarrow> (error + 'b list) option" where
  "parallelProcess items fn limit =
     (case makeBatches items limit 0 [] of
        None \<Rightarrow> None
      | Some batches \<Rightarrow> Some (runBatches fn batches []))"

text \<open>
  The partition the specification describes, in its own words: \<open>ceil(N/L)\<close> batches in
  order, the \<open>k\<close>-th holding the at most \<open>L\<close> items from index \<open>k * L\<close> on.
\<close>

definition spec_batches :: "'a list \<Rightarrow> nat \<Rightarrow> 'a list list" where
  "spec_batches items l =
     map (\<lambda>k. take l (drop (k * l) items))
       [0 ..< nat \<lceil>(of_nat (length items) :: rat) / of_nat l\<rceil>]"

section \<open>Aggregation and scanRepository\<close>

definition weight :: "component \<Rightarrow> rat" where
  "weight c =
     (if isDesignSystem c then designSystem WEIGHTS
      else if truthy (isDynamicImport c) then dynamicImport WEIGHTS
      else if truthy (viaComposition c) then (custom WEIGHTS + designSystem WEIGHTS) / 2
      else custom WEIGHTS)"

text \<open>The local \<open>weightedScore\<close>: the \<open>reduce\<close> from \<open>0\<close>.\<close>

definition weightedScoreOf :: "component list \<Rightarrow> rat" where
  "weightedScoreOf flatComponents = foldl (\<lambda>sum c. sum + weight c) 0 flatComponents"

text \<open>The local \<open>maxScore\<close>.\<close>

definition maxScoreOf :: "component list \<Rightarrow> rat" where
  "maxScoreOf flatComponents = of_nat (length flatComponents) * designSystem WEIGHTS"

text \<open>The local \<open>adoptionPercentage\<close>.\<close>

definition adoptionPercentageOf :: "component list \<Rightarrow> jsnum" where
  "adoptionPercentageOf flatComponents =
     js_times (js_divide (weightedScoreOf flatComponents) (maxScoreOf flatComponents)) 100"

text \<open>The report \<open>scanRepository\<close> builds from \<open>flatComponents\<close>.\<close>

definition buildReport :: "component list \<Rightarrow> scanReport" where
  "buildReport flatComponents =
     \<lparr>summary =
        \<lparr>designSystemComponents = length (filter (\<lambda>c. isDesignSystem c) flatComponents),
         customComponents = length (filter (\<lambda>c. \<not> isDesignSystem c) flatComponents),
         totalComponents = length flatComponents,
         adoptionPercentage = js_round2 (adoptionPercentageOf flatComponents),
         weightedScore = round2 (weightedScoreOf flatComponents),
         maxScore = round2 (maxScoreOf flatComponents)\<rparr>,
      components = flatComponents\<rparr>"

text \<open>
  The part of \<open>scanRepository\<close> after the file list is known: the files go through
  \<open>parallelProcess\<close> with its default limit 10, the results are flattened.
\<close>

definition scanFiles :: "host \<Rightarrow> tsConfig \<Rightarrow> scanConfig \<Rightarrow> string list \<Rightarrow> (error + scanReport) option" where
  "scanFiles h tsc config files =
     (case parallelProcess files (analyzeFile h tsc config) 10 of
        None \<Rightarrow> None
      | Some (Inl e) \<Rightarrow> Some (Inl e)
      | Some (Inr comps) \<Rightarrow> Some (Inr (buildReport (concat comps))))"

text \<open>
  \<open>scanRepository\<close> gives the warnings of the changed-file query and its settled
  promise; \<open>None\<close> would be a scan that does not return.
\<close>

definition scanRepository ::
  "host \<Rightarrow> string \<Rightarrow> scanConfig \<Rightarrow> bool \<Rightarrow> (string list \<times> (error + scanReport)) option" where
  "scanRepository h repoPath config incremental =
     (let tsc = loadTsConfig h (path_join h repoPath ''tsconfig.json'') in
      if incremental
      then (case getChangedFiles h repoPath of
              (warnings, Inl e) \<Rightarrow> Some (warnings, Inl e)
            | (warnings, Inr changed) \<Rightarrow>
                if length changed = 0
                then (case getTypeScriptFiles h repoPath (ignore config) of
                        Inl e \<Rightarrow> Some (warnings, Inl e)
                      | Inr files \<Rightarrow> map_option (Pair warnings) (scanFiles h tsc config files))
                else map_option (Pair warnings) (scanFiles h tsc config changed))
      else (case getTypeScriptFiles h repoPath (ignore config) of
              Inl e \<Rightarrow> Some ([], Inl e)
            | Inr files \<Rightarrow> map_option (Pair []) (scanFiles h tsc config files)))"

text \<open>Classification of a record, as the weight chain of \<open>scanRepository\<close> tells the kinds apart.\<close>

datatype classification = DesignSystemImport | DynamicImportReference | CustomComponent

definition classify :: "component \<Rightarrow> classification" where
  "classify c =
     (if isDesignSystem c then DesignSystemImport
      else if truthy (isDynamicImport c) then DynamicImportReference
      else CustomComponent)"

section \<open>Predicates and example inputs for the statements\<close>

text \<open>An import whose resolved source passes the prefix test of the import handler.\<close>

fun qualifyingImport :: "host \<Rightarrow> tsConfig \<Rightarrow> scanConfig \<Rightarrow> string \<Rightarrow> node \<Rightarrow> bool" where
  "qualifyingImport h tsc config file (ImportDeclarationNode src specifiers) =
     isDesignSystemSource config (resolveImport h src file tsc)"
| "qualifyingImport h tsc config file (ClassDeclarationNode ident decorators) = False"
| "qualifyingImport h tsc config file (CallExpressionNode callee args) = False"
| "qualifyingImport h tsc config file OtherNode = False"

text \<open>A class declaration carrying a component annotation.\<close>

definition hasComponentDecorator :: "expr list option \<Rightarrow> bool" where
  "hasComponentDecorator decorators =
     (case decorators of None \<Rightarrow> False | Some ds \<Rightarrow> list_ex isComponentDecorator ds)"

text \<open>The annotation payload names a template field, inline or external.\<close>

definition hasTemplateField :: "member list \<Rightarrow> bool" where
  "hasTemplateField props =
     list_ex (\<lambda>p. case member_key p of
                    None \<Rightarrow> False
                  | Some k \<Rightarrow> node_name k = Some ''template'' \<or> node_name k = Some ''templateUrl'')
       props"

text \<open>A file whose content cannot be read, or does not parse.\<close>

definition failsToLoad :: "host \<Rightarrow> string \<Rightarrow> bool" where
  "failsToLoad h file =
     (case readFile h file of
        Inl e \<Rightarrow> True
      | Inr content \<Rightarrow> (case parse h content of Inl e \<Rightarrow> True | Inr ast \<Rightarrow> False))"

text \<open>The records a file contributes: the value its analysis resolves with.\<close>

definition recordsOf :: "host \<Rightarrow> tsConfig \<Rightarrow> scanConfig \<Rightarrow> string \<Rightarrow> component list" where
  "recordsOf h tsc config file =
     (case analyzeFile h tsc config file of Inl e \<Rightarrow> [] | Inr rs \<Rightarrow> rs)"

text \<open>
  A host for examples. Its files are given by what reading and parsing return; the
  module resolver finds nothing, so an import keeps its raw specifier; there is no
  TypeScript configuration file. The example trees list the nodes that make a handler
  act; a node of another kind, and a call whose callee is not \<open>loadChildren\<close> (such as
  the call inside a decorator), leaves the visitor's state as it is.
\<close>

definition testHost ::
  "(string \<Rightarrow> error + unit) \<Rightarrow> (error + string) \<Rightarrow> string list \<Rightarrow> (string \<Rightarrow> error + string)
     \<Rightarrow> (string \<Rightarrow> error + node list) \<Rightarrow> host" where
  "testHost acc diff globbed rd prs =
     \<lparr>access = acc, readFile = rd, exec = (\<lambda>command cwd. diff),
      glob = (\<lambda>pattern cwd ign. Inr globbed), parse = prs,
      readConfigFile = (\<lambda>p. Inl (Failure ''ENOENT'')),
      resolveModuleName = (\<lambda>moduleName containingFile opts. None),
      path_join = (\<lambda>a b. a @ ''/'' @ b),
      path_dirname = (\<lambda>p. rev (drop 1 (dropWhile (\<lambda>c. c \<noteq> CHR ''/'') (rev p)))),
      path_resolve = (\<lambda>dir p. dir @ ''/'' @ p)\<rparr>"

definition defaultConfig :: scanConfig where
  "defaultConfig = \<lparr>designSystemPackages = [''@ui-kit'', ''@ds''], ignore = [''**/*.spec.ts'', ''**/*.stories.ts'']\<rparr>"

text \<open>\<open>import { Button } from '@ui-kit/button'\<close>\<close>

definition importButton :: node where
  "importButton = ImportDeclarationNode ''@ui-kit/button'' [ImportSpecifier ''Button'']"

text \<open>\<open>@Component({ selector: 'app-root' }) class AppComponent {}\<close>: no template field.\<close>

definition classNoTemplate :: node where
  "classNoTemplate =
     ClassDeclarationNode (Some ''AppComponent'')
       (Some [CallExpression (Identifier ''Component'')
                [ObjectExpression
                   [ObjectProperty (Identifier ''selector'') (StringLiteral ''app-root'')]]])"

text \<open>\<open>@Component({ selector: 'app-card', template: '<p></p>' }) class CardComponent {}\<close>\<close>

definition classInline :: node where
  "classInline =
     ClassDeclarationNode (Some ''CardComponent'')
       (Some [CallExpression (Identifier ''Component'')
                [ObjectExpression
                   [ObjectProperty (Identifier ''selector'') (StringLiteral ''app-card''),
                    ObjectProperty (Identifier ''template'') (StringLiteral ''<p></p>'')]]])"

text \<open>\<open>@Component() class BareComponent {}\<close>: the annotation is applied with no argument.\<close>

definition classBare :: node where
  "classBare =
     ClassDeclarationNode (Some ''BareComponent'')
       (Some [CallExpression (Identifier ''Component'') []])"

text \<open>\<open>loadChildren()\<close> and \<open>loadChildren('./lazy/module')\<close>\<close>

definition lazyCallNoArgs :: node where
  "lazyCallNoArgs = CallExpressionNode (Identifier ''loadChildren'') []"

definition lazyCall :: node where
  "lazyCall = CallExpressionNode (Identifier ''loadChildren'') [StringLiteral ''./lazy/module'']"

text \<open>A repository of one file with the given tree, outside version control.\<close>

definition oneFileHost :: "node list \<Rightarrow> host" where
  "oneFileHost ast =
     testHost (\<lambda>p. Inl (Failure ''ENOENT'')) (Inl (Failure ''not a git repository''))
       [''/repo/a.ts''] (\<lambda>p. Inr ''source'') (\<lambda>content. Inr ast)"

text \<open>A repository with no TypeScript file.\<close>

definition emptyRepoHost :: host where
  "emptyRepoHost =
     testHost (\<lambda>p. Inl (Failure ''ENOENT'')) (Inl (Failure ''not a git repository''))
       [] (\<lambda>p. Inl (Failure ''ENOENT'')) (\<lambda>content. Inr [])"

text \<open>
  A repository under version control (\<open>.git\<close> is accessible) in which
  \<open>git diff --name-only HEAD\<close> fails, as it does when \<open>git\<close> is not installed or the
  repository has no commit yet.
\<close>

definition gitFailsHost :: host where
  "gitFailsHost =
     testHost (\<lambda>p. Inr ()) (Inl (Failure ''Command failed: git diff --name-only HEAD''))
       [''/repo/a.ts''] (\<lambda>p. Inr ''source'') (\<lambda>content. Inr [importButton])"

text \<open>
  A repository of three files: \<open>/repo/a.ts\<close> cannot be read, \<open>/repo/b.ts\<close> does not
  parse, \<open>/repo/c.ts\<close> imports a design-system symbol and then declares a component.
\<close>

definition mixedHost :: host where
  "mixedHost =
     testHost (\<lambda>p. Inl (Failure ''ENOENT'')) (Inl (Failure ''not a git repository''))
       [''/repo/a.ts'', ''/repo/b.ts'', ''/repo/c.ts'']
       (\<lambda>p. if p = ''/repo/a.ts'' then Inl (Failure ''EACCES'')
             else if p = ''/repo/b.ts'' then Inr ''class {'' else Inr ''source'')
       (\<lambda>content. if content = ''class {'' then Inl (Failure ''Unexpected token'')
                   else Inr [importButton, classInline])"

section \<open>Aggregation: auxiliary facts\<close>

lemma foldl_weight: "foldl (\<lambda>sum c. sum + weight c) a rs = a + sum_list (map weight rs)"
  by (induction rs arbitrary: a) (simp_all add: add.assoc)

lemma weightedScoreOf_sum_list: "weightedScoreOf rs = sum_list (map weight rs)"
  by (simp add: weightedScoreOf_def foldl_weight)

lemma weight_bounds: "0 \<le> weight c \<and> weight c \<le> 1"
  by (simp add: weight_def WEIGHTS_def)

lemma sum_list_weight_le: "sum_list (map weight rs) \<le> of_nat (length rs)"
proof (induction rs)
  case Nil
  show ?case by simp
next
  case (Cons r rs)
  have "weight r \<le> 1" using weight_bounds by blast
  with Cons show ?case by simp
qed

lemma Math_round_mono: "x \<le> y \<Longrightarrow> Math_round x \<le> Math_round y"
  unfolding Math_round_def by (simp add: floor_mono)

lemma round2_mono: "x \<le> y \<Longrightarrow> round2 x \<le> round2 y"
  unfolding round2_def by (intro divide_right_mono Math_round_mono) simp_all

lemma round2_of_nat: "round2 (of_nat n) = of_nat n"
proof -
  have "\<lfloor>(of_int (int n * 100) :: rat) + 1 / 2\<rfloor> = int n * 100"
    by (rule floor_unique) simp_all
  then have "\<lfloor>(of_nat n :: rat) * 100 + 1 / 2\<rfloor> = int n * 100"
    by simp
  then show ?thesis by (simp add: round2_def Math_round_def)
qed

lemma filter_partition_length:
  "length (filter P xs) + length (filter (\<lambda>x. \<not> P x) xs) = length xs"
  by (induction xs) simp_all

section \<open>Batches: auxiliary facts\<close>

lemma less_ceiling_batches:
  assumes "0 < l"
  shows "k < nat \<lceil>(of_nat n :: rat) / of_nat l\<rceil> \<longleftrightarrow> k * l < n"
proof -
  have "k < nat \<lceil>(of_nat n :: rat) / of_nat l\<rceil> \<longleftrightarrow> int k < \<lceil>(of_nat n :: rat) / of_nat l\<rceil>"
    by (rule zless_nat_eq_int_zless)
  also have "\<dots> \<longleftrightarrow> (of_nat k :: rat) < of_nat n / of_nat l"
    by (simp add: less_ceiling_iff)
  also have "\<dots> \<longleftrightarrow> (of_nat k :: rat) * of_nat l < of_nat n"
    using assms by (simp add: pos_less_divide_eq)
  also have "\<dots> \<longleftrightarrow> k * l < n"
    by (metis of_nat_less_iff of_nat_mult)
  finally show ?thesis .
qed

lemma makeBatches_from:
  assumes "0 < l"
  shows "k \<le> nat \<lceil>(of_nat (length items) :: rat) / of_nat l\<rceil> \<Longrightarrow>
         makeBatches items l (k * l) bs =
           Some (bs @ map (\<lambda>j. take l (drop (j * l) items))
                        [k ..< nat \<lceil>(of_nat (length items) :: rat) / of_nat l\<rceil>])"
proof (induction "nat \<lceil>(of_nat (length items) :: rat) / of_nat l\<rceil> - k" arbitrary: k bs)
  case 0
  then have "\<not> k < nat \<lceil>(of_nat (length items) :: rat) / of_nat l\<rceil>" by simp
  then have "\<not> k * l < length items"
    using less_ceiling_batches [OF assms] by simp
  then have "makeBatches items l (k * l) bs = Some bs"
    by (subst makeBatches.simps) simp
  with 0 show ?case by simp
next
  case (Suc d)
  then have lt: "k < nat \<lceil>(of_nat (length items) :: rat) / of_nat l\<rceil>" by simp
  then have "k * l < length items"
    using less_ceiling_batches [OF assms] by simp
  then have "makeBatches items l (k * l) bs =
      makeBatches items l (Suc k * l) (bs @ [take l (drop (k * l) items)])"
    by (subst makeBatches.simps) (simp add: slice_def add.commute)
  also have "\<dots> = Some ((bs @ [take l (drop (k * l) items)]) @
      map (\<lambda>j. take l (drop (j * l) items))
        [Suc k ..< nat \<lceil>(of_nat (length items) :: rat) / of_nat l\<rceil>])"
    using Suc lt by (intro Suc.hyps(1)) simp_all
  finally show ?case using lt by (simp add: upt_conv_Cons)
qed

lemma makeBatches_spec:
  "0 < l \<Longrightarrow> makeBatches items l 0 [] = Some (spec_batches items l)"
  using makeBatches_from [of l 0 items "[]"] by (simp add: spec_batches_def)

lemma concat_batches_take:
  "concat (map (\<lambda>j. take l (drop (j * l) xs)) [0 ..< m]) = take (m * l) xs"
proof (induction m)
  case 0
  show ?case by simp
next
  case (Suc m)
  have "take (Suc m * l) xs = take (m * l + l) xs"
    by (simp add: add.commute)
  also have "\<dots> = take (m * l) xs @ take l (drop (m * l) xs)"
    by (rule take_add)
  finally show ?case using Suc by simp
qed

lemma concat_spec_batches:
  assumes "0 < l"
  shows "concat (spec_batches items l) = items"
proof -
  have "\<not> nat \<lceil>(of_nat (length items) :: rat) / of_nat l\<rceil> * l < length items"
    using less_ceiling_batches [OF assms, of "nat \<lceil>(of_nat (length items) :: rat) / of_nat l\<rceil>" "length items"]
    by simp
  then show ?thesis
    by (simp add: spec_batches_def concat_batches_take)
qed

lemma Promise_all_append:
  "Promise_all (ps @ qs) =
     (case Promise_all ps of
        Inl e \<Rightarrow> Inl e
      | Inr a \<Rightarrow> (case Promise_all qs of Inl e \<Rightarrow> Inl e | Inr b \<Rightarrow> Inr (a @ b)))"
  by (induction ps rule: Promise_all.induct) (simp_all split: sum.splits)

lemma runBatches_concat:
  "runBatches fn bs acc =
     (case Promise_all (map fn (concat bs)) of
        Inl e \<Rightarrow> Inl e
      | Inr rs \<Rightarrow> Inr (acc @ rs))"
  by (induction bs arbitrary: acc) (simp_all add: Promise_all_append split: sum.splits)

lemma parallelProcess_Promise_all:
  "0 < l \<Longrightarrow> parallelProcess items fn l = Some (Promise_all (map fn items))"
  by (simp add: parallelProcess_def makeBatches_spec runBatches_concat concat_spec_batches
      split: sum.splits)

lemma Promise_all_resolved:
  "\<forall>x\<in>set items. \<exists>y. fn x = Inr y \<Longrightarrow>
   Promise_all (map fn items) = Inr (map (\<lambda>x. projr (fn x)) items)"
  by (induction items) auto

text \<open>With the limit 0 the first loop returns only when there is nothing to batch.\<close>

lemma makeBatches_zero_limit:
  assumes "makeBatches items limit i bs = Some r"
  shows "limit = 0 \<longrightarrow> \<not> i < length items"
proof (rule makeBatches.raw_induct
        [where P = "\<lambda>items limit i bs r. limit = 0 \<longrightarrow> \<not> i < length items", OF _ assms])
  fix mk :: "'a list \<Rightarrow> nat \<Rightarrow> nat \<Rightarrow> 'a list list \<Rightarrow> 'a list list option"
  fix xs :: "'a list" and l j :: nat and batches res :: "'a list list"
  assume IH: "\<And>a b c d y. mk a b c d = Some y \<Longrightarrow> b = 0 \<longrightarrow> \<not> c < length a"
    and eq: "(if j < length xs
              then mk xs l (j + l) (batches @ [slice xs j (j + l)])
              else Some batches) = Some res"
  show "l = 0 \<longrightarrow> \<not> j < length xs"
  proof (intro impI notI)
    assume "l = 0" and lt: "j < length xs"
    with eq have "mk xs 0 j (batches @ [slice xs j j]) = Some res" by simp
    from IH [OF this] lt show False by simp
  qed
qed

lemma parallelProcess_zero_limit:
  "items \<noteq> [] \<Longrightarrow> parallelProcess items fn 0 = None"
proof (rule ccontr)
  assume ne: "items \<noteq> []" and "parallelProcess items fn 0 \<noteq> None"
  then obtain bs where "makeBatches items 0 0 [] = Some bs"
    by (auto simp: parallelProcess_def split: option.splits)
  from makeBatches_zero_limit [OF this] ne show False by simp
qed

section \<open>File analysis: auxiliary facts\<close>

lemma analyzeFile_resolves: "\<exists>rs. analyzeFile h tsc config file = Inr rs"
  by (simp add: analyzeFile_def try_catch_def split: sum.splits)

lemma analyzeFile_failsToLoad:
  "failsToLoad h file \<Longrightarrow> analyzeFile h tsc config file = Inr []"
  by (auto simp: analyzeFile_def try_catch_def bindE_def failsToLoad_def split: sum.splits)

lemma traverse_append:
  "traverse h tsc config file (xs @ ys) st =
     bindE (traverse h tsc config file xs st) (traverse h tsc config file ys)"
  by (induction xs arbitrary: st) (simp_all add: bindE_def split: sum.splits)

lemma visit_effect:
  assumes "visit h tsc config file n st = Inr st'"
  shows "(\<exists>new. fst st' = fst st @ new) \<and> snd st' = (snd st \<or> qualifyingImport h tsc config file n)"
  using assms
  by (cases n)
     (auto simp: visitImportDeclaration_def visitClassDeclaration_def visitCallExpression_def
        bindE_def Let_def split: if_splits option.splits list.splits sum.splits)

lemma traverse_effect:
  "traverse h tsc config file ns st = Inr st' \<Longrightarrow>
   (\<exists>new. fst st' = fst st @ new) \<and>
   snd st' = (snd st \<or> list_ex (qualifyingImport h tsc config file) ns)"
proof (induction ns arbitrary: st)
  case Nil
  then show ?case by simp
next
  case (Cons n ns)
  from Cons.prems obtain st1 where
    v: "visit h tsc config file n st = Inr st1" and
    t: "traverse h tsc config file ns st1 = Inr st'"
    by (auto split: sum.splits)
  from visit_effect [OF v] Cons.IH [OF t] show ?case by auto
qed

lemma visitClassDeclaration_record:
  assumes "visitClassDeclaration file ident decorators st = Inr st'"
      and "hasComponentDecorator decorators"
  shows "\<exists>r. st' = (fst st @ [r], snd st) \<and> ident = Some (name r) \<and>
             isDesignSystem r = False \<and> isDynamicImport r = Undefined \<and>
             viaComposition r = Boolean (snd st)"
  using assms
  by (auto simp: visitClassDeclaration_def hasComponentDecorator_def customComponent_def bindE_def
        find_None_iff list_ex_iff
        split: option.splits list.splits sum.splits)

section \<open>The scan: auxiliary facts\<close>

lemma analyze_all:
  "Promise_all (map (analyzeFile h tsc config) files) = Inr (map (recordsOf h tsc config) files)"
proof (induction files)
  case Nil
  show ?case by simp
next
  case (Cons f files)
  obtain rs where "analyzeFile h tsc config f = Inr rs"
    using analyzeFile_resolves by blast
  with Cons show ?case by (simp add: recordsOf_def)
qed

lemma scanFiles_eq:
  "scanFiles h tsc config files =
     Some (Inr (buildReport (concat (map (recordsOf h tsc config) files))))"
  by (simp add: scanFiles_def parallelProcess_Promise_all analyze_all)

lemma scanRepository_report:
  "scanRepository h repoPath config incremental = Some (warnings, Inr report) \<Longrightarrow>
   report = buildReport (components report)"
  by (auto simp: scanRepository_def scanFiles_eq Let_def buildReport_def
        split: if_splits sum.splits prod.splits)

lemma scanRepository_returns:
  "\<exists>warnings outcome. scanRepository h repoPath config incremental = Some (warnings, outcome)"
  by (auto simp: scanRepository_def scanFiles_eq Let_def split: if_splits sum.splits prod.splits)

text \<open>The definitions a concrete scan unfolds.\<close>

lemmas eval_defs = scanRepository_def scanFiles_eq recordsOf_def analyzeFile_def try_catch_def bindE_def
  getTypeScriptFiles_def getChangedFiles_def loadTsConfig_def testHost_def oneFileHost_def
  emptyRepoHost_def gitFailsHost_def mixedHost_def defaultConfig_def importButton_def classNoTemplate_def classInline_def
  classBare_def lazyCallNoArgs_def lazyCall_def visitImportDeclaration_def visitClassDeclaration_def
  visitCallExpression_def resolveImport_def isDesignSystemSource_def startsWith_def
  isComponentDecorator_def selector_of_def isInline_def customComponent_def lazyComponent_def
  changedFilesWarning_def

section \<open>Facts for the individual claims\<close>

lemma find_by_key_absent:
  "find_by_key P props = Inr found \<Longrightarrow>
   \<not> list_ex (\<lambda>p. case member_key p of None \<Rightarrow> False | Some k \<Rightarrow> P (node_name k)) props \<Longrightarrow>
   found = None"
  by (induction props) (auto split: option.splits if_splits)

lemma visitClassDeclaration_no_template:
  assumes "visitClassDeclaration file ident (Some ds) st = Inr st'"
      and "find isComponentDecorator ds = Some (CallExpression callee (ObjectExpression props # rest))"
      and "\<not> hasTemplateField props"
  shows "\<exists>r. st' = (fst st @ [r], snd st) \<and> usage r = Some \<lparr>inline = 0, external = 1\<rparr>"
proof -
  from assms(1,2) obtain selProp sel templateProp className where
    t: "find_by_key (\<lambda>k. k = Some ''template'' \<or> k = Some ''templateUrl'') props = Inr templateProp"
    and r: "st' = (fst st @ [customComponent className sel file (snd st) (isInline templateProp)], snd st)"
    by (auto simp: visitClassDeclaration_def bindE_def split: sum.splits option.splits)
  from find_by_key_absent [OF t] assms(3) have "templateProp = None"
    by (simp add: hasTemplateField_def)
  with r show ?thesis by (simp add: customComponent_def isInline_def)
qed

lemma round2_zero: "round2 0 = 0"
  using round2_of_nat [of 0] by simp

lemma no_components_NaN:
  "adoptionPercentage (summary (buildReport [])) = NaN"
  by (simp add: buildReport_def adoptionPercentageOf_def weightedScoreOf_def
      maxScoreOf_def js_divide_def)

lemma getChangedFiles_exec_rejects:
  "access h (path_join h repoPath ''.git'') = Inr u \<Longrightarrow>
   exec h ''git diff --name-only HEAD'' repoPath = Inl err \<Longrightarrow>
   getChangedFiles h repoPath = ([], Inl err) \<and>
   scanRepository h repoPath config True = Some ([], Inl err)"
  by (simp add: getChangedFiles_def scanRepository_def)

lemma getChangedFiles_no_metadata:
  "access h (path_join h repoPath ''.git'') = Inl e \<Longrightarrow>
   getChangedFiles h repoPath = ([changedFilesWarning], Inr []) \<and>
   scanRepository h repoPath config True =
     map_option (\<lambda>(w, outcome). ([changedFilesWarning], outcome))
       (scanRepository h repoPath config False)"
  by (auto simp: getChangedFiles_def scanRepository_def scanFiles_eq Let_def split: sum.splits)

lemma emitted_classification:
  "classify (customComponent className sel file u i) = CustomComponent"
  "classify (lazyComponent src file) = DynamicImportReference"
  "list_all (\<lambda>r. classify r = DesignSystemImport) (specifierComponents resolved file sp)"
  by (cases sp; simp add: classify_def customComponent_def lazyComponent_def)+

lemma length_spec_batches:
  "int (length (spec_batches items l)) = \<lceil>(of_nat (length items) :: rat) / of_nat l\<rceil>"
proof -
  have "(0::rat) \<le> of_nat (length items) / of_nat l" by simp
  then have "\<lceil>0 :: rat\<rceil> \<le> \<lceil>(of_nat (length items) :: rat) / of_nat l\<rceil>"
    by (rule ceiling_mono)
  then have "0 \<le> \<lceil>(of_nat (length items) :: rat) / of_nat l\<rceil>"
    by simp
  then show ?thesis by (simp add: spec_batches_def)
qed

lemma spec_batches_bounded: "\<forall>b \<in> set (spec_batches items l). length b \<le> l"
  by (auto simp: spec_batches_def)

lemma Promise_all_nth:
  "Promise_all ps = Inr rs \<Longrightarrow> length rs = length ps \<and> (\<forall>i < length ps. ps ! i = Inr (rs ! i))"
proof (induction ps arbitrary: rs rule: Promise_all.induct)
  case 1
  then show ?case by simp
next
  case (2 e ps)
  then show ?case by simp
next
  case (3 v ps)
  then obtain vs where vs: "Promise_all ps = Inr vs" and rs: "rs = v # vs"
    by (auto split: sum.splits)
  from 3(1) [OF vs] rs show ?case
    by (auto simp: nth_Cons split: nat.splits)
qed

lemma spec_batches_example:
  "spec_batches [''a'', ''b'', ''c'', ''d'', ''e''] 2 = [[''a'', ''b''], [''c'', ''d''], [''e'']]"
proof -
  have "\<lceil>(5::rat) / 2\<rceil> = 3"
    by (rule ceiling_unique) simp_all
  then show ?thesis
    by (simp add: spec_batches_def upt_conv_Cons)
qed

lemma recordsOf_failsToLoad: "failsToLoad h file \<Longrightarrow> recordsOf h tsc config file = []"
  by (simp add: recordsOf_def analyzeFile_failsToLoad)

lemma concat_skip_failing:
  "concat (map (recordsOf h tsc config) (filter (\<lambda>f. \<not> failsToLoad h f) files)) =
   concat (map (recordsOf h tsc config) files)"
  by (induction files) (simp_all add: recordsOf_failsToLoad)

lemma custom_count_split:
  "length (filter (\<lambda>c. \<not> isDesignSystem c) rs) =
     length (filter (\<lambda>c. classify c = CustomComponent) rs) +
     length (filter (\<lambda>c. classify c = DynamicImportReference) rs)"
  by (induction rs) (simp_all add: classify_def)

lemma analyzeFile_traversed:
  "readFile h file = Inr content \<Longrightarrow> parse h content = Inr ast \<Longrightarrow>
   analyzeFile h tsc config file =
     (case traverse h tsc config file ast ([], False) of Inl e \<Rightarrow> Inr [] | Inr st \<Rightarrow> Inr (fst st))"
  by (simp add: analyzeFile_def try_catch_def bindE_def split: sum.splits)

section \<open>The claims\<close>

text \<open>
  C1. The claim: when the scan yields zero component records, \<open>totalComponents\<close> is 0
  and the percentage is an explicit policy value, never an unrepresentable one.
  What the code does on a repository without TypeScript files: the scan returns, the
  count is 0, and \<open>adoptionPercentage\<close> is \<open>0 / 0\<close>, that is \<open>NaN\<close>; no branch of
  \<open>scanRepository\<close> tests for an empty record list.
\<close>

theorem zero_components_percentage_NaN:
  "scanRepository emptyRepoHost ''/repo'' defaultConfig False =
     Some ([], Inr \<lparr>summary =
                      \<lparr>designSystemComponents = 0, customComponents = 0, totalComponents = 0,
                       adoptionPercentage = NaN, weightedScore = 0, maxScore = 0\<rparr>,
                    components = []\<rparr>)"
  by (simp add: eval_defs buildReport_def adoptionPercentageOf_def weightedScoreOf_def
      maxScoreOf_def js_divide_def round2_zero)

text \<open>
  C2. The claim: when the change-detection query errors, \<open>getChangedFiles\<close> warns and
  returns the empty list, so that the scan falls back to all files.
  What the code does when \<open>.git\<close> is accessible and \<open>git diff\<close> fails: the query rejects
  with the error of \<open>exec\<close>, without a warning, and the incremental scan rejects with
  it, although a full scan of the same repository gives a report.
\<close>

theorem git_diff_failure_aborts_scan:
  "getChangedFiles gitFailsHost ''/repo'' =
     ([], Inl (Failure ''Command failed: git diff --name-only HEAD''))
   \<and> scanRepository gitFailsHost ''/repo'' defaultConfig True =
     Some ([], Inl (Failure ''Command failed: git diff --name-only HEAD''))
   \<and> (\<exists>report. scanRepository gitFailsHost ''/repo'' defaultConfig False = Some ([], Inr report))"
  by (simp add: eval_defs)

text \<open>
  C3. The claim: a custom-component record whose annotation payload has neither a
  \<open>template\<close> nor a \<open>templateUrl\<close> field has \<open>inline = 0\<close> and \<open>external = 0\<close>.
  What the code does for \<open>@Component({ selector: 'app-root' })\<close>: the record has
  \<open>inline = 0\<close> and \<open>external = 1\<close>.
\<close>

theorem absent_template_recorded_external:
  "analyzeFile (oneFileHost [classNoTemplate]) \<lparr>options = []\<rparr> defaultConfig ''/repo/a.ts'' =
     Inr [\<lparr>name = ''AppComponent'', selector = Str ''app-root'', isDesignSystem = False,
           source = Str ''custom'', filePath = ''/repo/a.ts'', viaComposition = Boolean False,
           usage = Some \<lparr>inline = 0, external = 1\<rparr>, isDynamicImport = Undefined\<rparr>]
   \<and> \<not> hasTemplateField [ObjectProperty (Identifier ''selector'') (StringLiteral ''app-root'')]"
  by (simp add: eval_defs hasTemplateField_def)

text \<open>
  C4. In a file whose analysis completes, the record of an annotated class carries the
  composition flag exactly when a qualifying design-system import stands among the nodes
  visited before the class: the flag is the value of \<open>usesDesignSystem\<close> at the class,
  which is true if and only if one of the earlier nodes is an import whose resolved
  source starts with a configured prefix. The record then weighs 7/8, and 3/4 otherwise.
  The witness is the pair of files of the specification: the import of
  \<open>@ui-kit/button\<close> before the class, and the same import after it.
\<close>

theorem composition_flag_by_declaration_order:
  assumes rd: "readFile h file = Inr content"
      and ps: "parse h content = Inr (pre @ ClassDeclarationNode ident decorators # post)"
      and tr: "traverse h tsc config file (pre @ ClassDeclarationNode ident decorators # post)
                 ([], False) = Inr (comps, u)"
      and dec: "hasComponentDecorator decorators"
  shows "analyzeFile h tsc config file = Inr comps \<and>
         (\<exists>before r after.
            traverse h tsc config file pre ([], False) =
              Inr (before, list_ex (qualifyingImport h tsc config file) pre)
          \<and> comps = before @ r # after
          \<and> ident = Some (name r)
          \<and> classify r = CustomComponent
          \<and> viaComposition r = Boolean (list_ex (qualifyingImport h tsc config file) pre)
          \<and> weight r = (if list_ex (qualifyingImport h tsc config file) pre then 7 / 8 else 3 / 4))"
proof -
  let ?q = "list_ex (qualifyingImport h tsc config file) pre"
  from tr obtain st1 where
    t1: "traverse h tsc config file pre ([], False) = Inr st1" and
    t2: "traverse h tsc config file (ClassDeclarationNode ident decorators # post) st1 = Inr (comps, u)"
    by (auto simp: traverse_append bindE_def split: sum.splits)
  from t2 obtain st2 where
    v: "visitClassDeclaration file ident decorators st1 = Inr st2" and
    t3: "traverse h tsc config file post st2 = Inr (comps, u)"
    by (auto split: sum.splits)
  from traverse_effect [OF t1] have u1: "snd st1 = ?q" by simp
  from visitClassDeclaration_record [OF v dec] obtain r where
    st2: "st2 = (fst st1 @ [r], snd st1)" and
    nm: "ident = Some (name r)" and
    ds: "isDesignSystem r = False" and
    dy: "isDynamicImport r = Undefined" and
    vc: "viaComposition r = Boolean (snd st1)"
    by blast
  from traverse_effect [OF t3] st2 obtain after where
    c: "comps = fst st1 @ r # after"
    by auto
  have t1': "traverse h tsc config file pre ([], False) = Inr (fst st1, ?q)"
    using t1 u1 by (cases st1) simp
  have cl: "classify r = CustomComponent"
    using ds dy by (simp add: classify_def)
  have w: "weight r = (if ?q then 7 / 8 else 3 / 4)"
    using ds dy vc u1 by (simp add: weight_def WEIGHTS_def)
  have a: "analyzeFile h tsc config file = Inr comps"
    using analyzeFile_traversed [OF rd ps, of tsc config] tr by simp
  have "traverse h tsc config file pre ([], False) = Inr (fst st1, ?q)
          \<and> comps = fst st1 @ r # after
          \<and> ident = Some (name r)
          \<and> classify r = CustomComponent
          \<and> viaComposition r = Boolean ?q
          \<and> weight r = (if ?q then 7 / 8 else 3 / 4)"
    using t1' c nm cl vc u1 w by simp
  then have "\<exists>before r after.
            traverse h tsc config file pre ([], False) = Inr (before, ?q)
          \<and> comps = before @ r # after
          \<and> ident = Some (name r)
          \<and> classify r = CustomComponent
          \<and> viaComposition r = Boolean ?q
          \<and> weight r = (if ?q then 7 / 8 else 3 / 4)"
    by (intro exI [of _ "fst st1"] exI [of _ r] exI [of _ after])
  with a show ?thesis by (rule conjI)
qed

theorem composition_flag_by_declaration_order_witness:
  "hasComponentDecorator
     (Some [CallExpression (Identifier ''Component'')
              [ObjectExpression [ObjectProperty (Identifier ''selector'') (StringLiteral ''app-root'')]]])
   \<and> (\<exists>before r after.
         analyzeFile (oneFileHost [importButton, classNoTemplate]) \<lparr>options = []\<rparr> defaultConfig
           ''/repo/a.ts'' = Inr (before @ r # after)
         \<and> ''AppComponent'' = name r \<and> viaComposition r = Boolean True \<and> weight r = 7 / 8)
   \<and> (\<exists>before r after.
         analyzeFile (oneFileHost [classNoTemplate, importButton]) \<lparr>options = []\<rparr> defaultConfig
           ''/repo/a.ts'' = Inr (before @ r # after)
         \<and> ''AppComponent'' = name r \<and> viaComposition r = Boolean False \<and> weight r = 3 / 4)"
proof -
  let ?ds = "Some [CallExpression (Identifier ''Component'')
              [ObjectExpression [ObjectProperty (Identifier ''selector'') (StringLiteral ''app-root'')]]]"
  let ?cls = "ClassDeclarationNode (Some ''AppComponent'') ?ds"
  let ?tsc = "\<lparr>options = []\<rparr>"
  let ?H1 = "oneFileHost [importButton, classNoTemplate]"
  let ?H2 = "oneFileHost [classNoTemplate, importButton]"
  have dec: "hasComponentDecorator ?ds"
    by (simp add: hasComponentDecorator_def isComponentDecorator_def)
  have rd1: "readFile ?H1 ''/repo/a.ts'' = Inr ''source''"
    by (simp add: oneFileHost_def testHost_def)
  have ps1: "parse ?H1 ''source'' = Inr ([importButton] @ ?cls # [])"
    by (simp add: oneFileHost_def testHost_def classNoTemplate_def)
  obtain comps1 u1 where
    tr1: "traverse ?H1 ?tsc defaultConfig ''/repo/a.ts'' ([importButton] @ ?cls # []) ([], False)
            = Inr (comps1, u1)"
    by (simp add: eval_defs)
  have q1: "list_ex (qualifyingImport ?H1 ?tsc defaultConfig ''/repo/a.ts'') [importButton]"
    by (simp add: eval_defs)
  have rd2: "readFile ?H2 ''/repo/a.ts'' = Inr ''source''"
    by (simp add: oneFileHost_def testHost_def)
  have ps2: "parse ?H2 ''source'' = Inr ([] @ ?cls # [importButton])"
    by (simp add: oneFileHost_def testHost_def classNoTemplate_def)
  obtain comps2 u2 where
    tr2: "traverse ?H2 ?tsc defaultConfig ''/repo/a.ts'' ([] @ ?cls # [importButton]) ([], False)
            = Inr (comps2, u2)"
    by (simp add: eval_defs)
  from composition_flag_by_declaration_order [OF rd1 ps1 tr1 dec]
  obtain b1 r1 a1 where
    "analyzeFile ?H1 ?tsc defaultConfig ''/repo/a.ts'' = Inr comps1"
    "comps1 = b1 @ r1 # a1"
    "Some ''AppComponent'' = Some (name r1)"
    "viaComposition r1 =
       Boolean (list_ex (qualifyingImport ?H1 ?tsc defaultConfig ''/repo/a.ts'') [importButton])"
    "weight r1 =
       (if list_ex (qualifyingImport ?H1 ?tsc defaultConfig ''/repo/a.ts'') [importButton]
        then 7 / 8 else 3 / 4)"
    by blast
  with q1 have one: "\<exists>before r after.
         analyzeFile ?H1 ?tsc defaultConfig ''/repo/a.ts'' = Inr (before @ r # after)
         \<and> ''AppComponent'' = name r \<and> viaComposition r = Boolean True \<and> weight r = 7 / 8"
    by (intro exI [of _ b1] exI [of _ r1] exI [of _ a1]) simp
  from composition_flag_by_declaration_order [OF rd2 ps2 tr2 dec]
  obtain b2 r2 a2 where
    "analyzeFile ?H2 ?tsc defaultConfig ''/repo/a.ts'' = Inr comps2"
    "comps2 = b2 @ r2 # a2"
    "Some ''AppComponent'' = Some (name r2)"
    "viaComposition r2 =
       Boolean (list_ex (qualifyingImport ?H2 ?tsc defaultConfig ''/repo/a.ts'') [])"
    "weight r2 =
       (if list_ex (qualifyingImport ?H2 ?tsc defaultConfig ''/repo/a.ts'') []
        then 7 / 8 else 3 / 4)"
    by blast
  then have two: "\<exists>before r after.
         analyzeFile ?H2 ?tsc defaultConfig ''/repo/a.ts'' = Inr (before @ r # after)
         \<and> ''AppComponent'' = name r \<and> viaComposition r = Boolean False \<and> weight r = 3 / 4"
    by (intro exI [of _ b2] exI [of _ r2] exI [of _ a2]) simp
  from dec one two show ?thesis by (intro conjI)
qed

text \<open>
  C5. The weight of a record depends on its classification alone: 1 for a design-system
  import, 1/2 for a dynamic-import reference, 7/8 for a custom component with the
  composition flag, 3/4 for any other custom component. The weighted score is the sum
  of the weights and the maximum score is the number of records times 1. The summary
  reports both through the two-decimal rounding, which leaves the maximum unchanged.
\<close>

theorem weights_by_classification:
  "weight c =
     (case classify c of
        DesignSystemImport \<Rightarrow> 1
      | DynamicImportReference \<Rightarrow> 1 / 2
      | CustomComponent \<Rightarrow> if truthy (viaComposition c) then 7 / 8 else 3 / 4)
   \<and> weightedScoreOf rs = sum_list (map weight rs)
   \<and> maxScoreOf rs = of_nat (length rs) * 1
   \<and> weightedScore (summary (buildReport rs)) = round2 (sum_list (map weight rs))
   \<and> maxScore (summary (buildReport rs)) = of_nat (length rs)"
  by (simp add: weight_def classify_def WEIGHTS_def weightedScoreOf_sum_list maxScoreOf_def
      buildReport_def round2_of_nat)

theorem weights_by_classification_witness:
  "weight (lazyComponent (Str ''./lazy/module'') ''/repo/a.ts'') = 1 / 2
   \<and> weightedScoreOf
        [customComponent ''CardComponent'' (Str ''app-card'') ''/repo/a.ts'' True True,
         lazyComponent (Str ''./lazy/module'') ''/repo/a.ts''] = 11 / 8
   \<and> maxScoreOf
        [customComponent ''CardComponent'' (Str ''app-card'') ''/repo/a.ts'' True True,
         lazyComponent (Str ''./lazy/module'') ''/repo/a.ts''] = 2"
  using weights_by_classification
    [of "lazyComponent (Str ''./lazy/module'') ''/repo/a.ts''"
        "[customComponent ''CardComponent'' (Str ''app-card'') ''/repo/a.ts'' True True,
          lazyComponent (Str ''./lazy/module'') ''/repo/a.ts'']"]
  by (simp add: classify_def lazyComponent_def customComponent_def weight_def WEIGHTS_def)

text \<open>
  C6. The analysis of a file never rejects; for a file that cannot be read or does not
  parse it resolves with the empty list. The batch processor hands back every file's
  own records at the file's position, and the report of the scan is the report built
  from the concatenated records of the files that loaded: it is the report the scan
  gives when the failing files are left out of the file list.
\<close>

theorem failing_files_contribute_nothing:
  "(\<exists>rs. analyzeFile h tsc config file = Inr rs)
   \<and> (failsToLoad h file \<longrightarrow> analyzeFile h tsc config file = Inr [])
   \<and> parallelProcess files (analyzeFile h tsc config) 10 =
       Some (Inr (map (recordsOf h tsc config) files))
   \<and> scanFiles h tsc config files =
       Some (Inr (buildReport (concat (map (recordsOf h tsc config)
                                        (filter (\<lambda>f. \<not> failsToLoad h f) files)))))
   \<and> scanFiles h tsc config files =
       scanFiles h tsc config (filter (\<lambda>f. \<not> failsToLoad h f) files)"
proof -
  have "parallelProcess files (analyzeFile h tsc config) 10 =
          Some (Inr (map (recordsOf h tsc config) files))"
    by (simp add: parallelProcess_Promise_all analyze_all)
  moreover have "scanFiles h tsc config (filter (\<lambda>f. \<not> failsToLoad h f) files) =
      Some (Inr (buildReport (concat (map (recordsOf h tsc config) files))))"
    by (simp only: scanFiles_eq concat_skip_failing)
  ultimately show ?thesis
    using analyzeFile_resolves [of h tsc config "file"]
    by (simp add: analyzeFile_failsToLoad scanFiles_eq concat_skip_failing)
qed

theorem failing_files_contribute_nothing_witness:
  "failsToLoad mixedHost ''/repo/a.ts''
   \<and> failsToLoad mixedHost ''/repo/b.ts''
   \<and> analyzeFile mixedHost \<lparr>options = []\<rparr> defaultConfig ''/repo/a.ts'' = Inr []
   \<and> analyzeFile mixedHost \<lparr>options = []\<rparr> defaultConfig ''/repo/b.ts'' = Inr []
   \<and> scanFiles mixedHost \<lparr>options = []\<rparr> defaultConfig [''/repo/a.ts'', ''/repo/b.ts'', ''/repo/c.ts'']
       = scanFiles mixedHost \<lparr>options = []\<rparr> defaultConfig [''/repo/c.ts'']"
proof -
  have a: "failsToLoad mixedHost ''/repo/a.ts''"
    by (simp add: failsToLoad_def mixedHost_def testHost_def)
  have b: "failsToLoad mixedHost ''/repo/b.ts''"
    by (simp add: failsToLoad_def mixedHost_def testHost_def)
  have c: "\<not> failsToLoad mixedHost ''/repo/c.ts''"
    by (simp add: failsToLoad_def mixedHost_def testHost_def)
  from a b c
    failing_files_contribute_nothing
      [of mixedHost "\<lparr>options = []\<rparr>" defaultConfig "''/repo/a.ts''"
          "[''/repo/a.ts'', ''/repo/b.ts'', ''/repo/c.ts'']"]
    failing_files_contribute_nothing
      [of mixedHost "\<lparr>options = []\<rparr>" defaultConfig "''/repo/b.ts''" "[]"]
  show ?thesis by (simp add: scanFiles_eq)
qed

text \<open>
  C7. For a list of \<open>N\<close> items and a limit \<open>L\<close> of at least one, the first loop of
  \<open>parallelProcess\<close> returns the partition of the specification: \<open>ceil(N/L)\<close> batches
  of at most \<open>L\<close> items whose concatenation is the list. The result is what the second
  loop computes over these batches in order; when every item's operation resolves, the
  result has one entry per item and the entry at index \<open>i\<close> is the outcome for the item
  at index \<open>i\<close>. (With \<open>L = 0\<close> and a non-empty list the loop does not return:
  \<open>parallelProcess_zero_limit\<close>.)
\<close>

theorem batches_partition_in_order:
  assumes "0 < limit"
  shows "makeBatches items limit 0 [] = Some (spec_batches items limit)
       \<and> int (length (spec_batches items limit)) = \<lceil>(of_nat (length items) :: rat) / of_nat limit\<rceil>
       \<and> (\<forall>b \<in> set (spec_batches items limit). length b \<le> limit)
       \<and> concat (spec_batches items limit) = items
       \<and> parallelProcess items fn limit = Some (runBatches fn (spec_batches items limit) [])
       \<and> ((\<forall>x \<in> set items. \<exists>y. fn x = Inr y) \<longrightarrow>
            (\<exists>results. parallelProcess items fn limit = Some (Inr results)
               \<and> length results = length items
               \<and> (\<forall>i < length items. fn (items ! i) = Inr (results ! i))))"
proof -
  have run: "parallelProcess items fn limit = Some (runBatches fn (spec_batches items limit) [])"
    using assms by (simp add: parallelProcess_def makeBatches_spec)
  have idx: "\<exists>results. parallelProcess items fn limit = Some (Inr results)
               \<and> length results = length items
               \<and> (\<forall>i < length items. fn (items ! i) = Inr (results ! i))"
    if ok: "\<forall>x \<in> set items. \<exists>y. fn x = Inr y"
  proof -
    have all: "Promise_all (map fn items) = Inr (map (\<lambda>x. projr (fn x)) items)"
      using ok by (rule Promise_all_resolved)
    from Promise_all_nth [OF all] parallelProcess_Promise_all [OF assms, of items fn] all
    show ?thesis by simp
  qed
  from assms run idx show ?thesis
    by (simp add: makeBatches_spec length_spec_batches spec_batches_bounded concat_spec_batches)
qed

theorem batches_partition_in_order_witness:
  "(0::nat) < 2
   \<and> makeBatches [''a'', ''b'', ''c'', ''d'', ''e''] 2 0 [] =
       Some [[''a'', ''b''], [''c'', ''d''], [''e'']]
   \<and> parallelProcess [''a'', ''b'', ''c'', ''d'', ''e''] (\<lambda>x. Inr (x @ x) :: error + string) 2
       = Some (Inr [''aa'', ''bb'', ''cc'', ''dd'', ''ee''])"
proof -
  have h: "(0::nat) < 2" by simp
  show ?thesis
    using batches_partition_in_order
      [OF h, of "[''a'', ''b'', ''c'', ''d'', ''e'']" "\<lambda>x. Inr (x @ x) :: error + string"]
    by (simp add: spec_batches_example)
qed

text \<open>
  C8. For every record list the reported weighted score is at most the reported maximum
  score: each weight lies between 0 and 1, and both numbers pass through the same
  monotone rounding.
\<close>

theorem reported_score_le_max:
  "weightedScore (summary (buildReport rs)) \<le> maxScore (summary (buildReport rs))"
proof -
  have "weightedScoreOf rs \<le> maxScoreOf rs"
    by (simp add: weightedScoreOf_sum_list maxScoreOf_def WEIGHTS_def sum_list_weight_le)
  then show ?thesis by (simp add: buildReport_def round2_mono)
qed

text \<open>
  C9. In every report of a scan the design-system count and the custom count add up
  to the total count, which is the number of records. The custom count is the number of
  records whose \<open>isDesignSystem\<close> is false: the custom components together with the
  dynamic-import references, which have no count of their own.
\<close>

theorem summary_counts_partition:
  assumes "scanRepository h repoPath config incremental = Some (warnings, Inr report)"
  shows "designSystemComponents (summary report) + customComponents (summary report) =
           totalComponents (summary report)
       \<and> totalComponents (summary report) = length (components report)
       \<and> customComponents (summary report) =
           length (filter (\<lambda>c. classify c = CustomComponent) (components report)) +
           length (filter (\<lambda>c. classify c = DynamicImportReference) (components report))"
proof -
  from scanRepository_report [OF assms] obtain rs where r: "report = buildReport rs" ..
  have "designSystemComponents (summary (buildReport rs)) + customComponents (summary (buildReport rs))
          = totalComponents (summary (buildReport rs))"
    by (simp add: buildReport_def filter_partition_length)
  moreover have "customComponents (summary (buildReport rs)) =
      length (filter (\<lambda>c. classify c = CustomComponent) rs) +
      length (filter (\<lambda>c. classify c = DynamicImportReference) rs)"
    by (simp add: buildReport_def custom_count_split)
  moreover have "totalComponents (summary (buildReport rs)) = length (components (buildReport rs))"
    and "components (buildReport rs) = rs"
    by (simp_all add: buildReport_def)
  ultimately show ?thesis
    unfolding r by simp
qed

theorem summary_counts_partition_witness:
  "\<exists>report.
     scanRepository (oneFileHost [importButton, classInline, lazyCall]) ''/repo'' defaultConfig False
       = Some ([], Inr report)
     \<and> map classify (components report) = [DesignSystemImport, CustomComponent, DynamicImportReference]
     \<and> designSystemComponents (summary report) = 1
     \<and> customComponents (summary report) = 2
     \<and> totalComponents (summary report) = 3"
proof -
  obtain rs where
    e: "scanRepository (oneFileHost [importButton, classInline, lazyCall]) ''/repo'' defaultConfig False
          = Some ([], Inr (buildReport rs))"
    and rs: "map classify rs = [DesignSystemImport, CustomComponent, DynamicImportReference]"
    by (simp add: eval_defs classify_def)
  from summary_counts_partition [OF e] rs
  have "customComponents (summary (buildReport rs)) = 2
        \<and> totalComponents (summary (buildReport rs)) = 3
        \<and> designSystemComponents (summary (buildReport rs)) = 1"
    by (auto simp: buildReport_def)
  with e rs show ?thesis
    by (intro exI [of _ "buildReport rs"]) (simp add: buildReport_def)
qed

text \<open>
  C10. A file that is read and parsed can still yield the empty list: when the walk
  reaches a component annotation applied without an argument, or a call of
  \<open>loadChildren\<close> without an argument, the handler throws, and the \<open>catch\<close> of
  \<open>analyzeFile\<close> returns the empty list whatever the earlier nodes had collected. In
  the witness the import before the offending node had already produced a record.
\<close>

theorem traversal_throw_discards_file:
  assumes rd: "readFile h file = Inr content"
      and ps: "parse h content = Inr (pre @ n # post)"
      and tr: "traverse h tsc config file pre ([], False) = Inr (collected, u)"
      and n: "n = CallExpressionNode (Identifier ''loadChildren'') [] \<or>
              (\<exists>ident ds callee. n = ClassDeclarationNode ident (Some ds) \<and>
                 find isComponentDecorator ds = Some (CallExpression callee []))"
  shows "visit h tsc config file n (collected, u) = Inl TypeError \<and>
         analyzeFile h tsc config file = Inr []"
proof -
  from n have v: "visit h tsc config file n (collected, u) = Inl TypeError"
    by (auto simp: visitCallExpression_def visitClassDeclaration_def)
  have "traverse h tsc config file (pre @ n # post) ([], False) = Inl TypeError"
    using tr v by (simp add: traverse_append bindE_def)
  with analyzeFile_traversed [OF rd ps, of tsc config] v show ?thesis by simp
qed

theorem traversal_throw_discards_file_witness:
  "(\<exists>collected.
      traverse (oneFileHost [importButton, classBare]) \<lparr>options = []\<rparr> defaultConfig ''/repo/a.ts''
        [importButton] ([], False) = Inr (collected, True)
      \<and> length collected = 1
      \<and> analyzeFile (oneFileHost [importButton, classBare]) \<lparr>options = []\<rparr> defaultConfig
          ''/repo/a.ts'' = Inr [])
   \<and> (\<exists>collected.
      traverse (oneFileHost [importButton, lazyCallNoArgs]) \<lparr>options = []\<rparr> defaultConfig ''/repo/a.ts''
        [importButton] ([], False) = Inr (collected, True)
      \<and> length collected = 1
      \<and> analyzeFile (oneFileHost [importButton, lazyCallNoArgs]) \<lparr>options = []\<rparr> defaultConfig
          ''/repo/a.ts'' = Inr [])"
proof -
  let ?tsc = "\<lparr>options = []\<rparr>"
  let ?H1 = "oneFileHost [importButton, classBare]"
  let ?H2 = "oneFileHost [importButton, lazyCallNoArgs]"
  have rd1: "readFile ?H1 ''/repo/a.ts'' = Inr ''source''"
    by (simp add: oneFileHost_def testHost_def)
  have ps1: "parse ?H1 ''source'' = Inr ([importButton] @ classBare # [])"
    by (simp add: oneFileHost_def testHost_def)
  obtain c1 where
    tr1: "traverse ?H1 ?tsc defaultConfig ''/repo/a.ts'' [importButton] ([], False) = Inr (c1, True)"
    and l1: "length c1 = 1"
    by (simp add: eval_defs)
  have n1: "classBare = CallExpressionNode (Identifier ''loadChildren'') [] \<or>
              (\<exists>ident ds callee. classBare = ClassDeclarationNode ident (Some ds) \<and>
                 find isComponentDecorator ds = Some (CallExpression callee []))"
    by (simp add: classBare_def isComponentDecorator_def)
  have rd2: "readFile ?H2 ''/repo/a.ts'' = Inr ''source''"
    by (simp add: oneFileHost_def testHost_def)
  have ps2: "parse ?H2 ''source'' = Inr ([importButton] @ lazyCallNoArgs # [])"
    by (simp add: oneFileHost_def testHost_def)
  obtain c2 where
    tr2: "traverse ?H2 ?tsc defaultConfig ''/repo/a.ts'' [importButton] ([], False) = Inr (c2, True)"
    and l2: "length c2 = 1"
    by (simp add: eval_defs)
  have n2: "lazyCallNoArgs = CallExpressionNode (Identifier ''loadChildren'') [] \<or>
              (\<exists>ident ds callee. lazyCallNoArgs = ClassDeclarationNode ident (Some ds) \<and>
                 find isComponentDecorator ds = Some (CallExpression callee []))"
    by (simp add: lazyCallNoArgs_def)
  from traversal_throw_discards_file [OF rd1 ps1 tr1 n1] tr1 l1
  have one: "\<exists>collected.
      traverse ?H1 ?tsc defaultConfig ''/repo/a.ts'' [importButton] ([], False) = Inr (collected, True)
      \<and> length collected = 1
      \<and> analyzeFile ?H1 ?tsc defaultConfig ''/repo/a.ts'' = Inr []"
    by blast
  from traversal_throw_discards_file [OF rd2 ps2 tr2 n2] tr2 l2
  have two: "\<exists>collected.
      traverse ?H2 ?tsc defaultConfig ''/repo/a.ts'' [importButton] ([], False) = Inr (collected, True)
      \<and> length collected = 1
      \<and> analyzeFile ?H2 ?tsc defaultConfig ''/repo/a.ts'' = Inr []"
    by blast
  from one two show ?thesis by (rule conjI)
qed

end
